theory Spec2Isabelle
  imports Main "HOL-Library.Log_Nat"
begin

section \<open>Numbers of the host language\<close>

text \<open>
  The program is TypeScript: every \<^verbatim>\<open>number\<close> is an IEEE 754 binary64 value and every
  arithmetic operator rounds its exact result to the nearest such value, ties to the even
  significand. A number is modelled as one of the three special values or as the exact
  rational a finite double denotes. The sign of zero is not modelled: \<^verbatim>\<open>-0\<close> and
  \<^verbatim>\<open>0\<close> are both \<open>Fin 0\<close>; they are equal under \<^verbatim>\<open>===\<close> and both falsy.
\<close>

datatype number = NaN | PosInf | NegInf | Fin rat

definition pow2 :: "int \<Rightarrow> rat" where
  "pow2 e = (if 0 \<le> e then 2 ^ nat e else 1 / 2 ^ nat (- e))"

text \<open>For positive \<open>x\<close>, the exponent \<open>e\<close> with \<open>2 ^ e \<le> x < 2 ^ (e + 1)\<close>.\<close>

definition ilog2 :: "rat \<Rightarrow> int" where
  "ilog2 x = (let (p, q) = quotient_of x; e = bitlen p - bitlen q
              in if x < pow2 e then e - 1 else e)"

definition round_half_even :: "rat \<Rightarrow> int" where
  "round_half_even y = (let f = \<lfloor>y\<rfloor>; r = y - of_int f
     in if r < 1 / 2 then f else if 1 / 2 < r then f + 1 else if even f then f else f + 1)"

text \<open>
  Rounding of an exact result to binary64: 53 significant bits, least exponent \<open>-1022\<close>
  (below it the spacing stays \<open>2 ^ -1074\<close>), overflow to an infinity from \<open>2 ^ 1024\<close> on.
\<close>

definition round64 :: "rat \<Rightarrow> number" where
  "round64 x = (if x = 0 then Fin 0 else
     let a = \<bar>x\<bar>;
         e = max (ilog2 a) (- 1022);
         q = pow2 (e - 52);
         r = of_int (round_half_even (a / q)) * q
     in if pow2 1024 \<le> r then (if 0 < x then PosInf else NegInf)
        else Fin (if 0 < x then r else - r))"

text \<open>A decimal literal of the source denotes the double nearest to it.\<close>

definition lit :: "rat \<Rightarrow> number" where
  "lit x = round64 x"

definition is_neg :: "number \<Rightarrow> bool" where
  "is_neg x = (case x of NegInf \<Rightarrow> True | Fin a \<Rightarrow> a < 0 | _ \<Rightarrow> False)"

definition signed_inf :: "bool \<Rightarrow> number" where
  "signed_inf neg = (if neg then NegInf else PosInf)"

fun fadd :: "number \<Rightarrow> number \<Rightarrow> number" where
  "fadd NaN y = NaN"
| "fadd x NaN = NaN"
| "fadd PosInf NegInf = NaN"
| "fadd NegInf PosInf = NaN"
| "fadd PosInf y = PosInf"
| "fadd NegInf y = NegInf"
| "fadd x PosInf = PosInf"
| "fadd x NegInf = NegInf"
| "fadd (Fin a) (Fin b) = round64 (a + b)"

fun fmul :: "number \<Rightarrow> number \<Rightarrow> number" where
  "fmul NaN y = NaN"
| "fmul x NaN = NaN"
| "fmul (Fin a) (Fin b) = round64 (a * b)"
| "fmul x y = (if x = Fin 0 \<or> y = Fin 0 then NaN else signed_inf (is_neg x \<noteq> is_neg y))"

fun fdiv :: "number \<Rightarrow> number \<Rightarrow> number" where
  "fdiv NaN y = NaN"
| "fdiv x NaN = NaN"
| "fdiv (Fin a) (Fin b) =
     (if b = 0 then (if a = 0 then NaN else signed_inf (a < 0)) else round64 (a / b))"
| "fdiv (Fin a) y = Fin 0"
| "fdiv x (Fin b) = signed_inf (is_neg x \<noteq> (b < 0))"
| "fdiv x y = NaN"

text \<open>\<^verbatim>\<open>a === b\<close> on numbers: \<^verbatim>\<open>NaN\<close> equals nothing, itself included.\<close>

definition strict_eq :: "number \<Rightarrow> number \<Rightarrow> bool" where
  "strict_eq a b = (a \<noteq> NaN \<and> b \<noteq> NaN \<and> a = b)"

text \<open>
  \<^verbatim>\<open>x || d\<close> on an optional number: the left operand is taken when it is truthy, and
  \<^verbatim>\<open>undefined\<close>, \<^verbatim>\<open>0\<close> and \<^verbatim>\<open>NaN\<close> are falsy.
\<close>

definition truthy :: "number \<Rightarrow> bool" where
  "truthy x = (x \<noteq> NaN \<and> x \<noteq> Fin 0)"

definition or_default :: "number option \<Rightarrow> number \<Rightarrow> number" where
  "or_default x d = (case x of None \<Rightarrow> d | Some v \<Rightarrow> if truthy v then v else d)"

text \<open>
  The counts of a task are non-negative when present; \<open>nonNegative\<close> holds of the finite
  numbers from zero on and of positive infinity.
\<close>

definition nonNegative :: "number \<Rightarrow> bool" where
  "nonNegative x = (case x of Fin a \<Rightarrow> 0 \<le> a | PosInf \<Rightarrow> True | _ \<Rightarrow> False)"

definition count_ok :: "number option \<Rightarrow> bool" where
  "count_ok x = (case x of None \<Rightarrow> True | Some v \<Rightarrow> nonNegative v)"

section \<open>Strings of the host language\<close>

text \<open>
  A string is a sequence of code units; the model covers the code units \<open>0\<close> to \<open>255\<close>
  (ASCII and Latin-1), one \<^typ>\<open>char\<close> each. \<^verbatim>\<open>toLowerCase\<close> maps \<^verbatim>\<open>A-Z\<close> and the
  Latin-1 capitals to their small letters and leaves every other unit alone.
\<close>

definition code :: "char \<Rightarrow> nat" where
  "code c = of_char c"

definition lower_unit :: "char \<Rightarrow> char" where
  "lower_unit c = (let n = code c
     in if (65 \<le> n \<and> n \<le> 90) \<or> (192 \<le> n \<and> n \<le> 222 \<and> n \<noteq> 215)
        then char_of (n + 32) else c)"

definition toLowerCase :: "string \<Rightarrow> string" where
  "toLowerCase s = map lower_unit s"

definition startsWith :: "string \<Rightarrow> string \<Rightarrow> bool" where
  "startsWith s t = (take (length t) s = t)"

text \<open>\<^verbatim>\<open>s.includes(t)\<close>: \<open>t\<close> occurs in \<open>s\<close> at some position.\<close>

fun includesStr :: "string \<Rightarrow> string \<Rightarrow> bool" where
  "includesStr [] t = (t = [])"
| "includesStr (c # cs) t = (startsWith (c # cs) t \<or> includesStr cs t)"

text \<open>\<^verbatim>\<open>xs.join(sep)\<close> on strings.\<close>

fun join :: "string \<Rightarrow> string list \<Rightarrow> string" where
  "join sep [] = []"
| "join sep [x] = x"
| "join sep (x # y # ys) = x @ sep @ join sep (y # ys)"

section \<open>Regular expressions\<close>

text \<open>
  The fragment of the host language's regular expressions that the program uses, with
  its backtracking semantics: an alternation tries its left branch first, a quantifier
  is greedy and gives back one iteration at a time, an iteration that consumes nothing
  is rejected, and a group records the text its last match consumed.
\<close>

datatype regex =
    Eps
  | Chr char
  | ChrI char
  | Cls "char \<Rightarrow> bool"
  | Seq regex regex
  | Alt regex regex
  | Star regex
  | Grp nat regex

type_synonym captures = "nat \<rightharpoonup> string"

text \<open>
  Case-insensitive comparison canonicalises both code units to upper case. A unit from
  \<open>128\<close> on never canonicalises to an ASCII unit, so against the ASCII patterns of this
  program only the ASCII letters fold.
\<close>

definition canonicalize :: "char \<Rightarrow> char" where
  "canonicalize c = (let n = code c in if 97 \<le> n \<and> n \<le> 122 then char_of (n - 32) else c)"

text \<open>
  \<open>rx_match r (s, cs)\<close> lists, in the order the matcher tries them, the ways \<open>r\<close> can
  match a prefix of \<open>s\<close>: each with the rest of the input and the captures so far.
\<close>

function rx_match :: "regex \<Rightarrow> string \<times> captures \<Rightarrow> (string \<times> captures) list" where
  "rx_match Eps st = [st]"
| "rx_match (Chr c) (s, cs) =
     (case s of [] \<Rightarrow> [] | x # xs \<Rightarrow> if x = c then [(xs, cs)] else [])"
| "rx_match (ChrI c) (s, cs) =
     (case s of [] \<Rightarrow> []
      | x # xs \<Rightarrow> if canonicalize x = canonicalize c then [(xs, cs)] else [])"
| "rx_match (Cls p) (s, cs) =
     (case s of [] \<Rightarrow> [] | x # xs \<Rightarrow> if p x then [(xs, cs)] else [])"
| "rx_match (Seq r1 r2) st = concat (map (rx_match r2) (rx_match r1 st))"
| "rx_match (Alt r1 r2) st = rx_match r1 st @ rx_match r2 st"
| "rx_match (Star r) (s, cs) =
     concat (map (\<lambda>st'. if length (fst st') < length s then rx_match (Star r) st' else [])
                 (rx_match r (s, cs)))
     @ [(s, cs)]"
| "rx_match (Grp i r) (s, cs) =
     map (\<lambda>st'. (fst st', (snd st')(i \<mapsto> take (length s - length (fst st')) s)))
         (rx_match r (s, cs))"
  by pat_completeness auto
termination
  by (relation "measures [\<lambda>(r, st). size r, \<lambda>(r, st). length (fst st)]") auto

definition plus_rx :: "regex \<Rightarrow> regex" where
  "plus_rx r = Seq r (Star r)"

fun rep :: "nat \<Rightarrow> regex \<Rightarrow> regex" where
  "rep 0 r = Eps"
| "rep (Suc n) r = Seq r (rep n r)"

fun chars :: "string \<Rightarrow> regex" where
  "chars [] = Eps"
| "chars (c # cs) = Seq (Chr c) (chars cs)"

fun charsI :: "string \<Rightarrow> regex" where
  "charsI [] = Eps"
| "charsI (c # cs) = Seq (ChrI c) (charsI cs)"

text \<open>
  One match attempt over the input, as \<^verbatim>\<open>RegExp.prototype.exec\<close> makes it: the start
  positions from left to right, at each the first way the matcher finds. The result is
  the text before the match, the match, its captures and the text after it.
\<close>

fun rx_exec :: "regex \<Rightarrow> string \<Rightarrow> string \<Rightarrow> (string \<times> string \<times> captures \<times> string) option" where
  "rx_exec r pre [] =
     (case rx_match r ([], Map.empty) of
        [] \<Rightarrow> None
      | st # _ \<Rightarrow> Some (pre, [], snd st, fst st))"
| "rx_exec r pre (x # xs) =
     (case rx_match r (x # xs, Map.empty) of
        [] \<Rightarrow> rx_exec r (pre @ [x]) xs
      | st # _ \<Rightarrow> Some (pre, take (length (x # xs) - length (fst st)) (x # xs), snd st, fst st))"

text \<open>\<^verbatim>\<open>regex.test(s)\<close>.\<close>

definition rx_test :: "regex \<Rightarrow> string \<Rightarrow> bool" where
  "rx_test r s = (rx_exec r [] s \<noteq> None)"

text \<open>\<^verbatim>\<open>s.replace(regex, "")\<close> for a regex without the global flag: the first match goes.\<close>

definition rx_remove_first :: "regex \<Rightarrow> string \<Rightarrow> string" where
  "rx_remove_first r s =
     (case rx_exec r [] s of None \<Rightarrow> s | Some (pre, m, cs, post) \<Rightarrow> pre @ post)"

text \<open>
  \<^verbatim>\<open>s.match(regex)\<close> for a regex with the global flag: the successive matches, each
  search starting where the last match ended (one unit further after an empty match).
  None of the program's patterns looks at the text before the start position, so the
  search goes on in the rest of the input. The fuel bounds the number of matches; the
  length of the input plus one is always enough.
\<close>

fun rx_match_all_fuel :: "nat \<Rightarrow> regex \<Rightarrow> string \<Rightarrow> string list" where
  "rx_match_all_fuel 0 r s = []"
| "rx_match_all_fuel (Suc n) r s =
     (case rx_exec r [] s of
        None \<Rightarrow> []
      | Some (pre, m, cs, post) \<Rightarrow>
          m # (if m = [] then (case post of [] \<Rightarrow> [] | _ # post' \<Rightarrow> rx_match_all_fuel n r post')
               else rx_match_all_fuel n r post))"

definition rx_match_all :: "regex \<Rightarrow> string \<Rightarrow> string list option" where
  "rx_match_all r s =
     (case rx_match_all_fuel (Suc (length s)) r s of [] \<Rightarrow> None | ms \<Rightarrow> Some ms)"

section \<open>Types (\<^verbatim>\<open>src/types/index.ts\<close>)\<close>

datatype task_type = Transaction | Contract | Gas | Parallel | General

datatype complexity_level = High | Medium | Low

text \<open>
  \<^verbatim>\<open>DebugTask\<close>. The four flags are booleans (the schema defaults them to
  \<^verbatim>\<open>false\<close>); the two estimates are optional numbers.
\<close>

record DebugTask =
  type :: task_type
  complexity :: complexity_level
  data :: string
  userContext :: "string option"
  requiresDeepAnalysis :: bool
  requiresCodeExecution :: bool
  isSimpleQuery :: bool
  isStatusCheck :: bool
  estimatedSearches :: "number option"
  estimatedTokens :: "number option"

record CostEstimate =
  searchCost :: number
  tokenCost :: number
  total :: number

record Citation =
  url :: string
  title :: string
  cited_text :: "string option"

text \<open>
  One element of a message's \<^verbatim>\<open>content\<close>: its \<^verbatim>\<open>type\<close> tag, its optional
  \<^verbatim>\<open>text\<close> and its optional \<^verbatim>\<open>citations\<close>.
\<close>

record ContentBlock =
  block_type :: string
  block_text :: "string option"
  block_citations :: "Citation list option"

text \<open>\<^verbatim>\<open>AnthropicMessage\<close> (\<^verbatim>\<open>model\<close> is \<open>msg_model\<close> here; \<^verbatim>\<open>codeOutput\<close> is never read below).\<close>

record AnthropicMessage =
  content :: "ContentBlock list"
  msg_model :: string
  server_tool_use :: "string list option"
  citations :: "Citation list option"

text \<open>
  \<^verbatim>\<open>DebugReport\<close>; its \<^verbatim>\<open>model\<close> and \<^verbatim>\<open>citations\<close> fields are \<open>report_model\<close> and
  \<open>report_citations\<close> here.
\<close>

record DebugReport =
  analysis :: "ContentBlock list"
  sources :: "Citation list"
  report_model :: string
  toolsUsed :: "string list"
  report_citations :: "Citation list"
  rootCause :: "string option"
  suggestions :: "string list option"

definition OPUS_4 :: string where
  "OPUS_4 = ''claude-opus-4-20250514''"

definition SONNET_4 :: string where
  "SONNET_4 = ''claude-sonnet-4-20250514''"

section \<open>ModelSelector (\<^verbatim>\<open>src/core/model-selector.ts\<close>)\<close>

text \<open>Logging is the only effect of \<^verbatim>\<open>selectModel\<close>; it does not reach the result.\<close>

definition selectModel :: "DebugTask \<Rightarrow> string" where
  "selectModel task =
     (if requiresDeepAnalysis task \<or> requiresCodeExecution task \<or> complexity task = High
      then OPUS_4
      else if isSimpleQuery task \<or> isStatusCheck task \<or> complexity task = Low
      then SONNET_4
      else SONNET_4)"

definition calculateTokenCost :: "number \<Rightarrow> string \<Rightarrow> number" where
  "calculateTokenCost tokens model =
     (let costPerKToken = (if model = OPUS_4 then lit (75 / 1000) else lit (15 / 1000))
      in fmul (fdiv tokens (lit 1000)) costPerKToken)"

definition estimateCost :: "DebugTask \<Rightarrow> CostEstimate" where
  "estimateCost task =
     (let searches = or_default (estimatedSearches task) (lit 0);
          tokens = or_default (estimatedTokens task) (lit 1000);
          model = selectModel task;
          searchCost = fmul searches (lit (1 / 100));
          tokenCost = calculateTokenCost tokens model
      in \<lparr>searchCost = searchCost, tokenCost = tokenCost, total = fadd searchCost tokenCost\<rparr>)"

section \<open>SeiDebugAgent (class \<^verbatim>\<open>SeiDebugAgent\<close>)\<close>

subsection \<open>The patterns\<close>

definition isHexDigit :: "char \<Rightarrow> bool" where
  "isHexDigit c = (let n = code c
     in (97 \<le> n \<and> n \<le> 102) \<or> (65 \<le> n \<and> n \<le> 70) \<or> (48 \<le> n \<and> n \<le> 57))"

definition isDigit :: "char \<Rightarrow> bool" where
  "isDigit c = (48 \<le> code c \<and> code c \<le> 57)"

text \<open>
  \<^verbatim>\<open>\s\<close>: tab, line feed, vertical tab, form feed, carriage return, space and the
  no-break space; its other members lie beyond code unit \<open>255\<close>.
\<close>

definition isSpace :: "char \<Rightarrow> bool" where
  "isSpace c = (code c \<in> {9, 10, 11, 12, 13, 32, 160})"

text \<open>\<^verbatim>\<open>/0x[a-fA-F0-9]{64}/\<close>\<close>

definition txHashPattern :: regex where
  "txHashPattern = Seq (chars ''0x'') (rep 64 (Cls isHexDigit))"

text \<open>\<^verbatim>\<open>/root cause[:\s]+([^.]+\.)/i\<close>\<close>

definition rootCausePattern :: regex where
  "rootCausePattern =
     Seq (charsI ''root cause'')
      (Seq (plus_rx (Cls (\<lambda>c. c = CHR '':'' \<or> isSpace c)))
        (Grp 1 (Seq (plus_rx (Cls (\<lambda>c. c \<noteq> CHR ''.''))) (Chr CHR ''.''))))"

text \<open>
  \<^verbatim>\<open>(\d+\.|\<bullet>|\*)\<close>, the list marker. The bullet is code unit \<open>8226\<close>, which no
  modelled unit equals: its branch is a class that nothing enters.
\<close>

definition markerGroup :: regex where
  "markerGroup =
     Grp 1 (Alt (Seq (plus_rx (Cls isDigit)) (Chr CHR ''.''))
            (Alt (Cls (\<lambda>c. False)) (Chr CHR ''*'')))"

text \<open>\<^verbatim>\<open>/(\d+\.|\<bullet>|\*)\s*([^.\n]+\.)/g\<close>\<close>

definition suggestionPattern :: regex where
  "suggestionPattern =
     Seq markerGroup
      (Seq (Star (Cls isSpace))
        (Grp 2 (Seq (plus_rx (Cls (\<lambda>c. c \<noteq> CHR ''.'' \<and> code c \<noteq> 10))) (Chr CHR ''.''))))"

text \<open>\<^verbatim>\<open>/(\d+\.|\<bullet>|\*)\s*/\<close>\<close>

definition markerPattern :: regex where
  "markerPattern = Seq markerGroup (Star (Cls isSpace))"

subsection \<open>classifyIssue\<close>

definition classifyIssue :: "string \<Rightarrow> string option \<Rightarrow> DebugTask" where
  "classifyIssue issue ctx =
     (let lowerIssue = toLowerCase issue;
          hasTransactionHash = rx_test txHashPattern issue;
          ty = (if hasTransactionHash then Transaction
                else if includesStr lowerIssue ''gas'' then Gas
                else if includesStr lowerIssue ''parallel'' \<or> includesStr lowerIssue ''state''
                then Parallel
                else if includesStr lowerIssue ''contract'' then Contract
                else General);
          cx = (if includesStr lowerIssue ''revert'' \<or> includesStr lowerIssue ''failed''
                   \<or> includesStr lowerIssue ''error''
                then High
                else if includesStr lowerIssue ''how'' \<or> includesStr lowerIssue ''what''
                   \<or> includesStr lowerIssue ''status''
                then Low
                else Medium)
      in \<lparr>type = ty,
          complexity = cx,
          data = issue,
          userContext = ctx,
          requiresDeepAnalysis = (cx = High \<or> ty = Parallel),
          requiresCodeExecution =
            (hasTransactionHash \<or> ty = Gas \<or> includesStr lowerIssue ''analyze''),
          isSimpleQuery = (cx = Low \<and> \<not> hasTransactionHash),
          isStatusCheck = (includesStr lowerIssue ''status'' \<or> includesStr lowerIssue ''check''),
          estimatedSearches = Some (if hasTransactionHash then lit 3 else lit 2),
          estimatedTokens = Some (if cx = High then lit 3000 else lit 1500)\<rparr>)"

subsection \<open>Report assembly\<close>

text \<open>
  The text of the blocks tagged \<^verbatim>\<open>"text"\<close>, joined by one space; a block without text
  contributes the empty string, as \<^verbatim>\<open>join\<close> renders \<^verbatim>\<open>undefined\<close>.
\<close>

definition textContent :: "ContentBlock list \<Rightarrow> string" where
  "textContent blocks =
     join '' '' (map (\<lambda>c. case block_text c of None \<Rightarrow> [] | Some t \<Rightarrow> t)
                    (filter (\<lambda>c. block_type c = ''text'') blocks))"

definition extractRootCause :: "ContentBlock list \<Rightarrow> string option" where
  "extractRootCause blocks =
     (case rx_exec rootCausePattern [] (textContent blocks) of
        None \<Rightarrow> None
      | Some (pre, m, cs, post) \<Rightarrow> cs 1)"

definition extractSuggestions :: "ContentBlock list \<Rightarrow> string list option" where
  "extractSuggestions blocks =
     (case rx_match_all suggestionPattern (textContent blocks) of
        None \<Rightarrow> None
      | Some ms \<Rightarrow> Some (map (rx_remove_first markerPattern) ms))"

text \<open>\<^verbatim>\<open>xs || []\<close> on an optional array.\<close>

definition or_empty :: "'a list option \<Rightarrow> 'a list" where
  "or_empty xs = (case xs of None \<Rightarrow> [] | Some ys \<Rightarrow> ys)"

text \<open>\<^verbatim>\<open>m?.f || []\<close> on an optional message.\<close>

definition opt_field :: "('m \<Rightarrow> 'a list option) \<Rightarrow> 'm option \<Rightarrow> 'a list" where
  "opt_field f m = (case m of None \<Rightarrow> [] | Some x \<Rightarrow> or_empty (f x))"

text \<open>
  \<^verbatim>\<open>[...new Set(xs)]\<close>: a set keeps its elements in the order of their first insertion.
\<close>

definition from_Set :: "'a list \<Rightarrow> 'a list" where
  "from_Set xs = fold (\<lambda>x acc. if x \<in> set acc then acc else acc @ [x]) xs []"

definition formatDebugReport ::
    "AnthropicMessage \<Rightarrow> AnthropicMessage option \<Rightarrow> AnthropicMessage option \<Rightarrow> DebugReport" where
  "formatDebugReport report searchResults analysis_msg =
     (let allCitations = or_empty (citations report)
                         @ opt_field citations searchResults
                         @ opt_field citations analysis_msg;
          tools = or_empty (server_tool_use report)
                  @ opt_field server_tool_use searchResults
                  @ opt_field server_tool_use analysis_msg
      in \<lparr>analysis = content report,
          sources = allCitations,
          report_model = msg_model report,
          toolsUsed = from_Set tools,
          report_citations = allCitations,
          rootCause = extractRootCause (content report),
          suggestions = extractSuggestions (content report)\<rparr>)"

section \<open>Concrete inputs\<close>

text \<open>A hand-built task as the repository's tests build them, with three searches and 2000 tokens.\<close>

definition searchTask :: DebugTask where
  "searchTask = \<lparr>type = Transaction, complexity = High, data = ''test'', userContext = None,
     requiresDeepAnalysis = False, requiresCodeExecution = False, isSimpleQuery = False,
     isStatusCheck = False, estimatedSearches = Some (Fin 3), estimatedTokens = Some (Fin 2000)\<rparr>"

text \<open>A hand-built task whose token estimate is present and zero.\<close>

definition zeroTokenTask :: DebugTask where
  "zeroTokenTask = \<lparr>type = General, complexity = Medium, data = ''test'', userContext = None,
     requiresDeepAnalysis = False, requiresCodeExecution = False, isSimpleQuery = False,
     isStatusCheck = False, estimatedSearches = Some (Fin 2), estimatedTokens = Some (Fin 0)\<rparr>"

text \<open>A transaction hash: 64 hexadecimal digits of both cases.\<close>

definition sampleHash :: string where
  "sampleHash = ''a4cE12B3bC1A612dd272Bd1C37EEC1CCc171B49d4B3C9BF53CCE6b3B2C1D6fFB''"

text \<open>The issue of the specification's first scenario.\<close>

definition revertIssue :: string where
  "revertIssue = ''transaction failed with revert''"

text \<open>Messages for the report scenarios: a text block, a citation, and responses built of them.\<close>

definition textBlock :: "string \<Rightarrow> ContentBlock" where
  "textBlock t = \<lparr>block_type = ''text'', block_text = Some t, block_citations = None\<rparr>"

definition toolBlock :: ContentBlock where
  "toolBlock = \<lparr>block_type = ''server_tool_use'', block_text = None, block_citations = None\<rparr>"

definition sampleCitation :: Citation where
  "sampleCitation = \<lparr>url = ''https://docs.sei.io'', title = ''Sei docs'', cited_text = None\<rparr>"

definition nonceReport :: AnthropicMessage where
  "nonceReport = \<lparr>content = [textBlock ''Analysis done.'',
                              textBlock ''Root cause: nonce collision. Try X.''],
     msg_model = OPUS_4, server_tool_use = Some [''web_search'', ''code_execution''],
     citations = Some [sampleCitation]\<rparr>"

definition earlierReport :: AnthropicMessage where
  "earlierReport = \<lparr>content = [textBlock ''The root cause is unclear.'',
                                textBlock ''Root cause: nonce collision. Try X.''],
     msg_model = OPUS_4, server_tool_use = Some [''web_search'', ''code_execution''],
     citations = Some [sampleCitation]\<rparr>"

definition searchMessage :: AnthropicMessage where
  "searchMessage = \<lparr>content = [toolBlock], msg_model = SONNET_4,
     server_tool_use = Some [''web_search'', ''code_execution''],
     citations = Some [sampleCitation]\<rparr>"

definition emptyReport :: AnthropicMessage where
  "emptyReport = \<lparr>content = [], msg_model = SONNET_4, server_tool_use = None,
     citations = None\<rparr>"

section \<open>Facts about the numbers\<close>

lemma pow2_powi: "pow2 e = 2 powi e"
  by (simp add: pow2_def power_int_def inverse_eq_divide power_one_over)

lemma pow2_pos: "0 < pow2 e"
  by (simp add: pow2_def)

lemma pow2_add: "pow2 (a + b) = pow2 a * pow2 b"
  by (simp add: pow2_powi power_int_add)

lemma pow2_mono: "a \<le> b \<Longrightarrow> pow2 a \<le> pow2 b"
  by (simp add: pow2_powi power_int_increasing)

lemma pow2_strict_mono: "a < b \<Longrightarrow> pow2 a < pow2 b"
  by (simp add: pow2_powi power_int_strict_increasing)

lemma pow2_of_nat: "0 \<le> e \<Longrightarrow> pow2 e = 2 ^ nat e"
  by (simp add: pow2_def)

lemma ilog2_unique:
  assumes "pow2 e \<le> x" "x < pow2 (e + 1)" "pow2 e' \<le> x" "x < pow2 (e' + 1)"
  shows "e = e'"
proof (rule ccontr)
  assume "e \<noteq> e'"
  then consider "e + 1 \<le> e'" | "e' + 1 \<le> e" by linarith
  then show False
  proof cases
    case 1
    then have "pow2 (e + 1) \<le> pow2 e'" by (rule pow2_mono)
    with assms show False by linarith
  next
    case 2
    then have "pow2 (e' + 1) \<le> pow2 e" by (rule pow2_mono)
    with assms show False by linarith
  qed
qed

lemma ilog2_bounds:
  assumes "0 < x"
  shows "pow2 (ilog2 x) \<le> x \<and> x < pow2 (ilog2 x + 1)"
proof -
  obtain p q where pq: "quotient_of x = (p, q)" by (cases "quotient_of x")
  then have q: "0 < q" and x: "x = of_int p / of_int q"
    by (simp_all add: quotient_of_denom_pos quotient_of_div)
  with assms have p: "0 < p" by (simp add: zero_less_divide_iff)
  define bp bq where "bp = bitlen p" and "bq = bitlen q"
  have bp1: "1 \<le> bp" and bq1: "1 \<le> bq"
    using p q bitlen_eq_zero_iff [of p] bitlen_eq_zero_iff [of q] bitlen_nonneg [of p] bitlen_nonneg [of q]
    by (auto simp: bp_def bq_def)
  have plo: "pow2 (bp - 1) \<le> of_int p"
  proof -
    have "(2::int) ^ nat (bp - 1) \<le> p" using bitlen_bounds [OF p] by (simp add: bp_def)
    then have "(of_int ((2::int) ^ nat (bp - 1)) :: rat) \<le> of_int p" by (simp only: of_int_le_iff)
    then show ?thesis using bp1 by (simp add: pow2_of_nat)
  qed
  have phi: "of_int p < pow2 bp"
  proof -
    have "p < (2::int) ^ nat bp" using bitlen_bounds [OF p] by (simp add: bp_def)
    then have "(of_int p :: rat) < of_int ((2::int) ^ nat bp)" by (simp only: of_int_less_iff)
    then show ?thesis using bp1 by (simp add: pow2_of_nat)
  qed
  have qlo: "pow2 (bq - 1) \<le> of_int q"
  proof -
    have "(2::int) ^ nat (bq - 1) \<le> q" using bitlen_bounds [OF q] by (simp add: bq_def)
    then have "(of_int ((2::int) ^ nat (bq - 1)) :: rat) \<le> of_int q" by (simp only: of_int_le_iff)
    then show ?thesis using bq1 by (simp add: pow2_of_nat)
  qed
  have qhi: "of_int q < pow2 bq"
  proof -
    have "q < (2::int) ^ nat bq" using bitlen_bounds [OF q] by (simp add: bq_def)
    then have "(of_int q :: rat) < of_int ((2::int) ^ nat bq)" by (simp only: of_int_less_iff)
    then show ?thesis using bq1 by (simp add: pow2_of_nat)
  qed
  have q': "(0::rat) < of_int q" using q by simp
  have lo: "pow2 (bp - bq - 1) < x"
  proof -
    have "pow2 (bp - bq - 1) * of_int q < pow2 (bp - bq - 1) * pow2 bq"
      using qhi pow2_pos [of "bp - bq - 1"] by simp
    also have "\<dots> = pow2 (bp - 1)" by (simp add: pow2_add [symmetric])
    also have "\<dots> \<le> of_int p" by (rule plo)
    finally show ?thesis using q' by (simp add: x pos_less_divide_eq)
  qed
  have hi: "x < pow2 (bp - bq + 1)"
  proof -
    have "of_int p < pow2 bp" by (rule phi)
    also have "\<dots> = pow2 (bp - bq + 1) * pow2 (bq - 1)" by (simp add: pow2_add [symmetric])
    also have "\<dots> \<le> pow2 (bp - bq + 1) * of_int q"
      using qlo pow2_pos [of "bp - bq + 1"] by simp
    finally show ?thesis using q' by (simp add: x pos_divide_less_eq)
  qed
  have il: "ilog2 x = (if x < pow2 (bp - bq) then bp - bq - 1 else bp - bq)"
    by (simp add: ilog2_def pq bp_def bq_def Let_def)
  show ?thesis
  proof (cases "x < pow2 (bp - bq)")
    case True
    then show ?thesis using lo il by simp
  next
    case False
    then show ?thesis using hi il by simp
  qed
qed

lemma ilog2_eqI: "pow2 e \<le> x \<Longrightarrow> x < pow2 (e + 1) \<Longrightarrow> ilog2 x = e"
proof -
  assume a: "pow2 e \<le> x" "x < pow2 (e + 1)"
  then have "0 < x" using pow2_pos [of e] by linarith
  then have "pow2 (ilog2 x) \<le> x \<and> x < pow2 (ilog2 x + 1)" by (rule ilog2_bounds)
  then show ?thesis using a ilog2_unique by blast
qed

lemma round_half_even_eqI:
  assumes "\<bar>y - of_int n\<bar> < 1 / 2 \<or> (\<bar>y - of_int n\<bar> = 1 / 2 \<and> even n)"
  shows "round_half_even y = n"
proof (cases "y < of_int n")
  case True
  with assms have lo: "of_int n - 1 / 2 \<le> y" by linarith
  have f: "\<lfloor>y\<rfloor> = n - 1"
    by (rule floor_unique) (use True lo in simp_all)
  show ?thesis
  proof (cases "y = of_int n - 1 / 2")
    case True
    with assms have "even n" by simp
    then show ?thesis using True f by (simp add: round_half_even_def Let_def)
  next
    case False
    with lo have "of_int n - 1 / 2 < y" by simp
    then show ?thesis using f by (simp add: round_half_even_def Let_def)
  qed
next
  case False
  with assms have hi: "y \<le> of_int n + 1 / 2" by linarith
  have f: "\<lfloor>y\<rfloor> = n"
    by (rule floor_unique) (use False hi in simp_all)
  show ?thesis
  proof (cases "y = of_int n + 1 / 2")
    case True
    with assms have "even n" by simp
    then show ?thesis using True f by (simp add: round_half_even_def Let_def)
  next
    case False
    with hi have "y < of_int n + 1 / 2" by simp
    then show ?thesis using f by (simp add: round_half_even_def Let_def)
  qed
qed

lemma round64_normal:
  assumes e: "pow2 e \<le> x" "x < pow2 (e + 1)" "- 1022 \<le> e" "e \<le> 1022"
    and n: "\<bar>x / pow2 (e - 52) - of_int n\<bar> < 1 / 2
            \<or> (\<bar>x / pow2 (e - 52) - of_int n\<bar> = 1 / 2 \<and> even n)"
  shows "round64 x = Fin (of_int n * pow2 (e - 52))"
proof -
  have x: "0 < x" using e(1) pow2_pos [of e] by linarith
  have il: "ilog2 x = e" using e by (simp add: ilog2_eqI)
  have r: "round_half_even (x / pow2 (e - 52)) = n"
    using n by (rule round_half_even_eqI)
  have "x / pow2 (e - 52) < pow2 53"
  proof -
    have "pow2 53 * pow2 (e - 52) = pow2 (e + 1)"
      unfolding pow2_add [symmetric] by (rule arg_cong [of _ _ pow2]) simp
    then have "x < pow2 53 * pow2 (e - 52)" using e(2) by simp
    then show ?thesis using pow2_pos [of "e - 52"] by (simp add: pos_divide_less_eq)
  qed
  then have "of_int n \<le> (pow2 53 :: rat)"
  proof -
    assume a: "x / pow2 (e - 52) < pow2 53"
    have "of_int n - 1 / 2 \<le> x / pow2 (e - 52)" using n by linarith
    with a have "(of_int n :: rat) < of_int (2 ^ 53) + 1 / 2" by (simp add: pow2_def)
    then have "(of_int n :: rat) < of_int (2 ^ 53 + 1)" by simp
    then have "n < 2 ^ 53 + 1" by (simp only: of_int_less_iff)
    then have "n \<le> 2 ^ 53" by simp
    then have "(of_int n :: rat) \<le> of_int (2 ^ 53)" by (simp only: of_int_le_iff)
    then show ?thesis by (simp add: pow2_def)
  qed
  then have "of_int n * pow2 (e - 52) \<le> pow2 53 * pow2 (e - 52)"
    using pow2_pos [of "e - 52"] by simp
  also have "\<dots> = pow2 (e + 1)"
    unfolding pow2_add [symmetric] by (rule arg_cong [of _ _ pow2]) simp
  also have "\<dots> < pow2 1024" using e(4) by (intro pow2_strict_mono) simp
  finally have no: "\<not> pow2 1024 \<le> of_int n * pow2 (e - 52)" by simp
  have ax: "\<bar>x\<bar> = x" using x by simp
  have mx: "max e (- 1022) = e" using e(3) by simp
  show ?thesis
    unfolding round64_def Let_def ax il mx r using x no by simp
qed

lemma round_half_even_nonneg: "0 \<le> y \<Longrightarrow> 0 \<le> round_half_even y"
  by (simp add: round_half_even_def Let_def)

lemma round64_nonNegative: "0 \<le> x \<Longrightarrow> nonNegative (round64 x)"
proof -
  assume x: "0 \<le> x"
  have "0 \<le> of_int (round_half_even (\<bar>x\<bar> / q)) * q" if "0 < q" for q :: rat
  proof -
    have "0 \<le> \<bar>x\<bar> / q" using that by simp
    then have "0 \<le> round_half_even (\<bar>x\<bar> / q)" by (rule round_half_even_nonneg)
    then show ?thesis using that by simp
  qed
  then show ?thesis
    using x by (simp add: round64_def Let_def nonNegative_def pow2_pos)
qed

lemma nonNegative_not_NaN: "nonNegative x \<Longrightarrow> x \<noteq> NaN"
  by (auto simp: nonNegative_def)

lemma fadd_nonNegative: "nonNegative x \<Longrightarrow> nonNegative y \<Longrightarrow> nonNegative (fadd x y)"
  by (cases x; cases y) (simp_all add: nonNegative_def round64_nonNegative [unfolded nonNegative_def])

lemma fmul_nonNegative: "nonNegative x \<Longrightarrow> 0 < b \<Longrightarrow> nonNegative (fmul x (Fin b))"
  by (cases x)
     (simp_all add: nonNegative_def round64_nonNegative [unfolded nonNegative_def]
        signed_inf_def is_neg_def)

lemma fdiv_nonNegative: "nonNegative x \<Longrightarrow> 0 < b \<Longrightarrow> nonNegative (fdiv x (Fin b))"
  by (cases x)
     (simp_all add: nonNegative_def round64_nonNegative [unfolded nonNegative_def]
        signed_inf_def is_neg_def)

lemma or_default_nonNegative: "count_ok x \<Longrightarrow> nonNegative d \<Longrightarrow> nonNegative (or_default x d)"
  by (auto simp: count_ok_def or_default_def split: option.splits)

lemma lit_0: "lit 0 = Fin 0"
  by (simp add: lit_def round64_def)

text \<open>The literals of the program and the roundings its arithmetic needs below.\<close>

lemma lit_2: "lit 2 = Fin 2"
  unfolding lit_def
  by (subst round64_normal [where e = 1 and n = "2 ^ 52"]) (simp_all add: pow2_def)

lemma lit_3: "lit 3 = Fin 3"
  unfolding lit_def
  by (subst round64_normal [where e = 1 and n = "3 * 2 ^ 51"]) (simp_all add: pow2_def)

lemma lit_1000: "lit 1000 = Fin 1000"
  unfolding lit_def
  by (subst round64_normal [where e = 9 and n = "1000 * 2 ^ 43"]) (simp_all add: pow2_def)

lemma lit_3000: "lit 3000 = Fin 3000"
  unfolding lit_def
  by (subst round64_normal [where e = 11 and n = "3000 * 2 ^ 41"]) (simp_all add: pow2_def)

lemma lit_search_rate: "lit (1 / 100) = Fin (5764607523034235 / 2 ^ 59)"
  unfolding lit_def
  by (subst round64_normal [where e = "- 7" and n = 5764607523034235]) (simp_all add: pow2_def)

lemma lit_opus_rate: "lit (75 / 1000) = Fin (5404319552844595 / 2 ^ 56)"
  unfolding lit_def
  by (subst round64_normal [where e = "- 4" and n = 5404319552844595]) (simp_all add: pow2_def)

lemma lit_sonnet_rate: "lit (15 / 1000) = Fin (8646911284551352 / 2 ^ 59)"
  unfolding lit_def
  by (subst round64_normal [where e = "- 7" and n = 8646911284551352]) (simp_all add: pow2_def)

lemma round64_1: "round64 1 = Fin 1"
  by (subst round64_normal [where e = 0 and n = "2 ^ 52"]) (simp_all add: pow2_def)

lemma round64_3: "round64 3 = Fin 3"
  using lit_3 by (simp add: lit_def)

section \<open>ModelSelector: the tier and the cost\<close>

lemma model_ids_differ: "OPUS_4 \<noteq> SONNET_4"
  by (simp add: OPUS_4_def SONNET_4_def)

text \<open>
  Claim C1. \<^verbatim>\<open>selectModel\<close> returns the High tier (Opus 4) exactly when the task requires
  deep analysis or code execution or has high complexity, and the Standard tier (Sonnet 4)
  exactly in every other case, whether or not the second rule's flags hold; the first
  rule wins over the second. The two tiers are different model identifiers.
\<close>

theorem selectModel_tier:
  "(selectModel t = OPUS_4) =
     (requiresDeepAnalysis t \<or> requiresCodeExecution t \<or> complexity t = High)
   \<and> (selectModel t = SONNET_4) =
     (\<not> (requiresDeepAnalysis t \<or> requiresCodeExecution t \<or> complexity t = High))
   \<and> OPUS_4 \<noteq> SONNET_4"
  using model_ids_differ by (auto simp: selectModel_def)

lemma round64_opus_rate: "round64 (5404319552844595 / 2 ^ 56) = Fin (5404319552844595 / 2 ^ 56)"
  by (subst round64_normal [where e = "- 4" and n = 5404319552844595]) (simp_all add: pow2_def)

lemma round64_sonnet_rate: "round64 (8646911284551352 / 2 ^ 59) = Fin (8646911284551352 / 2 ^ 59)"
  by (subst round64_normal [where e = "- 7" and n = 8646911284551352]) (simp_all add: pow2_def)

lemma nonNegative_Fin: "nonNegative (Fin a) = (0 \<le> a)"
  by (simp add: nonNegative_def)

lemma searchCost_nonNegative:
  assumes "count_ok (estimatedSearches t)"
  shows "nonNegative (searchCost (estimateCost t))"
proof -
  have "nonNegative (or_default (estimatedSearches t) (lit 0))"
    using assms by (intro or_default_nonNegative) (simp_all add: lit_0 nonNegative_Fin)
  then have "nonNegative (fmul (or_default (estimatedSearches t) (lit 0)) (lit (1 / 100)))"
    unfolding lit_search_rate by (rule fmul_nonNegative) simp
  then show ?thesis by (simp add: estimateCost_def Let_def)
qed

lemma calculateTokenCost_nonNegative:
  assumes "nonNegative tokens"
  shows "nonNegative (calculateTokenCost tokens m)"
proof -
  have d: "nonNegative (fdiv tokens (Fin 1000))"
    using assms by (rule fdiv_nonNegative) simp
  have "nonNegative (fmul (fdiv tokens (Fin 1000)) (Fin (5404319552844595 / 2 ^ 56)))"
    and "nonNegative (fmul (fdiv tokens (Fin 1000)) (Fin (8646911284551352 / 2 ^ 59)))"
    using d by (rule fmul_nonNegative, simp)+
  then show ?thesis
    unfolding calculateTokenCost_def Let_def lit_opus_rate lit_sonnet_rate lit_1000
    by (cases "m = OPUS_4") simp_all
qed

lemma tokenCost_nonNegative:
  assumes "count_ok (estimatedTokens t)"
  shows "nonNegative (tokenCost (estimateCost t))"
proof -
  have "nonNegative (or_default (estimatedTokens t) (lit 1000))"
    using assms by (intro or_default_nonNegative) (simp_all add: lit_1000 nonNegative_Fin)
  then have "nonNegative (calculateTokenCost (or_default (estimatedTokens t) (lit 1000))
                            (selectModel t))"
    by (rule calculateTokenCost_nonNegative)
  then show ?thesis by (simp add: estimateCost_def Let_def)
qed

text \<open>
  Claim C3. For every task, the \<^verbatim>\<open>total\<close> of the estimate is the sum, as the program's
  own addition forms it, of the \<^verbatim>\<open>searchCost\<close> and the \<^verbatim>\<open>tokenCost\<close> the estimate
  reports: no second rounding comes between. When the counts of the task are
  non-negative, the two sides also compare equal under \<^verbatim>\<open>===\<close> (the sum is not
  \<^verbatim>\<open>NaN\<close>).
\<close>

theorem estimateCost_total_exact:
  "total (estimateCost t) = fadd (searchCost (estimateCost t)) (tokenCost (estimateCost t))
   \<and> (count_ok (estimatedSearches t) \<and> count_ok (estimatedTokens t) \<longrightarrow>
        strict_eq (total (estimateCost t))
          (fadd (searchCost (estimateCost t)) (tokenCost (estimateCost t))))"
proof -
  have eq: "total (estimateCost t)
            = fadd (searchCost (estimateCost t)) (tokenCost (estimateCost t))"
    by (simp add: estimateCost_def Let_def)
  have "fadd (searchCost (estimateCost t)) (tokenCost (estimateCost t)) \<noteq> NaN"
    if "count_ok (estimatedSearches t)" "count_ok (estimatedTokens t)"
    using that
    by (intro nonNegative_not_NaN fadd_nonNegative searchCost_nonNegative tokenCost_nonNegative)
  with eq show ?thesis by (simp add: strict_eq_def)
qed

theorem estimateCost_total_exact_witness:
  "count_ok (estimatedSearches searchTask) \<and> count_ok (estimatedTokens searchTask)
   \<and> strict_eq (total (estimateCost searchTask))
        (fadd (searchCost (estimateCost searchTask)) (tokenCost (estimateCost searchTask)))"
proof -
  have "count_ok (estimatedSearches searchTask)" and "count_ok (estimatedTokens searchTask)"
    by (simp_all add: searchTask_def count_ok_def nonNegative_def)
  with estimateCost_total_exact [of searchTask] show ?thesis by blast
qed

text \<open>
  Claim C4, as stated, fails: a token estimate that is present and zero does not give
  zero tokens. The task \<open>zeroTokenTask\<close> has \<^verbatim>\<open>estimatedTokens = 0\<close>; its token cost is the
  cost of the default 1000 tokens at the Standard rate, not zero, and its total is not its
  search cost.
\<close>

theorem estimateCost_zero_tokens_counterexample:
  "estimatedTokens zeroTokenTask = Some (Fin 0)
   \<and> tokenCost (estimateCost zeroTokenTask) = Fin (8646911284551352 / 2 ^ 59)
   \<and> tokenCost (estimateCost zeroTokenTask) \<noteq> Fin 0
   \<and> total (estimateCost zeroTokenTask) \<noteq> searchCost (estimateCost zeroTokenTask)"
proof -
  have tc: "tokenCost (estimateCost zeroTokenTask) = Fin (8646911284551352 / 2 ^ 59)"
    by (simp add: estimateCost_def zeroTokenTask_def Let_def calculateTokenCost_def
        selectModel_def or_default_def truthy_def model_ids_differ [symmetric]
        lit_1000 lit_sonnet_rate [simplified] round64_1 round64_sonnet_rate [simplified])
  have sc: "searchCost (estimateCost zeroTokenTask) = Fin (5764607523034235 / 2 ^ 58)"
    by (simp add: estimateCost_def zeroTokenTask_def Let_def or_default_def truthy_def
        lit_search_rate)
       (subst round64_normal [where e = "- 6" and n = 5764607523034235],
        simp_all add: pow2_def)
  have "total (estimateCost zeroTokenTask)
        = fadd (searchCost (estimateCost zeroTokenTask)) (tokenCost (estimateCost zeroTokenTask))"
    by (simp add: estimateCost_def Let_def)
  also have "\<dots> = Fin (5044031582654956 / 2 ^ 57)"
    unfolding tc sc
    by (simp, subst round64_normal [where e = "- 5" and n = 5044031582654956])
       (simp_all add: pow2_def)
  finally have "total (estimateCost zeroTokenTask) = Fin (5044031582654956 / 2 ^ 57)" .
  with tc sc show ?thesis by (simp add: zeroTokenTask_def)
qed

text \<open>
  Claim C4, amended. The tokens of the estimate are \<^verbatim>\<open>estimatedTokens\<close> when that field is
  present and truthy (neither zero nor \<^verbatim>\<open>NaN\<close>), and the default 1000 when it is absent,
  zero or \<^verbatim>\<open>NaN\<close>. With \<^verbatim>\<open>estimatedTokens\<close> present and zero the token cost is
  therefore that of 1000 tokens: the per-1000-token rate of the selected model.
\<close>

theorem estimateCost_token_default:
  "tokenCost (estimateCost t) =
     calculateTokenCost
       (case estimatedTokens t of
          None \<Rightarrow> Fin 1000
        | Some v \<Rightarrow> if v = Fin 0 \<or> v = NaN then Fin 1000 else v)
       (selectModel t)
   \<and> (estimatedTokens t = Some (Fin 0) \<longrightarrow>
        tokenCost (estimateCost t)
          = (if selectModel t = OPUS_4 then lit (75 / 1000) else lit (15 / 1000)))"
  by (auto simp: estimateCost_def Let_def or_default_def truthy_def lit_1000
      calculateTokenCost_def lit_opus_rate [simplified] lit_sonnet_rate [simplified] round64_1
      round64_opus_rate [simplified] round64_sonnet_rate [simplified] split: option.splits)

theorem estimateCost_token_default_witness:
  "estimatedTokens zeroTokenTask = Some (Fin 0)
   \<and> selectModel zeroTokenTask = SONNET_4
   \<and> tokenCost (estimateCost zeroTokenTask) = lit (15 / 1000)"
proof -
  have "estimatedTokens zeroTokenTask = Some (Fin 0)" and "selectModel zeroTokenTask = SONNET_4"
    by (simp_all add: zeroTokenTask_def selectModel_def)
  with estimateCost_token_default [of zeroTokenTask] model_ids_differ show ?thesis by auto
qed

section \<open>Facts about the matcher\<close>

text \<open>
  A match never leaves more input than it was given, so each round of a global match
  works on a shorter rest, and any fuel beyond the length of the input gives the same
  list of matches: the fuel in \<open>rx_match_all\<close> never runs out.
\<close>

lemma rx_match_length:
  "st' \<in> set (rx_match r st) \<Longrightarrow> length (fst st') \<le> length (fst st)"
proof (induction r st arbitrary: st' rule: rx_match.induct)
  case (1 st)
  then show ?case by simp
next
  case (2 c s cs)
  then show ?case by (cases s) (simp_all split: if_splits)
next
  case (3 c s cs)
  then show ?case by (cases s) (simp_all split: if_splits)
next
  case (4 p s cs)
  then show ?case by (cases s) (simp_all split: if_splits)
next
  case (5 r1 r2 st)
  from "5.prems" obtain mid where mid: "mid \<in> set (rx_match r1 st)" "st' \<in> set (rx_match r2 mid)"
    by auto
  have "length (fst mid) \<le> length (fst st)" using mid(1) by (rule "5.IH"(1))
  moreover have "length (fst st') \<le> length (fst mid)" using mid by (rule "5.IH"(2))
  ultimately show ?case by simp
next
  case (6 r1 r2 st)
  from "6.prems" have "st' \<in> set (rx_match r1 st) \<or> st' \<in> set (rx_match r2 st)" by simp
  then show ?case using "6.IH" by blast
next
  case (7 r s cs)
  from "7.prems" consider
    (iter) mid where "mid \<in> set (rx_match r (s, cs))" "length (fst mid) < length s"
      "st' \<in> set (rx_match (Star r) mid)"
    | (stop) "st' = (s, cs)"
    by (auto split: if_splits)
  then show ?case
  proof cases
    case iter
    have "length (fst st') \<le> length (fst mid)" using iter by (rule "7.IH"(2))
    with iter(2) show ?thesis by simp
  next
    case stop
    then show ?thesis by simp
  qed
next
  case (8 i r s cs)
  from "8.prems" obtain mid where "mid \<in> set (rx_match r (s, cs))" "fst st' = fst mid"
    by auto
  then show ?case using "8.IH" by metis
qed

lemma rx_exec_length:
  "rx_exec r acc s = Some (pre, m, cs, post) \<Longrightarrow>
   length post \<le> length s \<and> (m \<noteq> [] \<longrightarrow> length post < length s)"
proof (induction s arbitrary: acc)
  case Nil
  show ?case
  proof (cases "rx_match r ([], Map.empty)")
    case Nil
    with Nil.prems show ?thesis by simp
  next
    case (Cons st others)
    then have "st \<in> set (rx_match r ([], Map.empty))" by simp
    then have "length (fst st) \<le> length (fst ([] :: string, Map.empty :: captures))"
      by (rule rx_match_length)
    moreover from Cons Nil.prems have "post = fst st" "m = []" by auto
    ultimately show ?thesis by simp
  qed
next
  case (Cons x xs)
  show ?case
  proof (cases "rx_match r (x # xs, Map.empty)")
    case Nil
    with Cons.prems have "rx_exec r (acc @ [x]) xs = Some (pre, m, cs, post)" by simp
    from Cons.IH [OF this] show ?thesis by auto
  next
    case (Cons st others)
    then have "st \<in> set (rx_match r (x # xs, Map.empty))" by simp
    then have "length (fst st) \<le> length (x # xs)" using rx_match_length by fastforce
    moreover from Cons Cons.prems
    have "post = fst st" "m = take (length (x # xs) - length (fst st)) (x # xs)" by auto
    ultimately show ?thesis by auto
  qed
qed

lemma rx_match_all_fuel_enough:
  "length s < n \<Longrightarrow> length s < n' \<Longrightarrow> rx_match_all_fuel n r s = rx_match_all_fuel n' r s"
proof (induction n arbitrary: n' s)
  case 0
  then show ?case by simp
next
  case (Suc n)
  then obtain k where n': "n' = Suc k" by (cases n') auto
  show ?case
  proof (cases "rx_exec r [] s")
    case None
    then show ?thesis by (simp add: n')
  next
    case (Some res)
    obtain pre m cs post where res: "res = (pre, m, cs, post)" by (cases res)
    from rx_exec_length [OF Some [unfolded res]]
    have len: "length post \<le> length s" "m \<noteq> [] \<Longrightarrow> length post < length s" by auto
    show ?thesis
    proof (cases "m = []")
      case True
      show ?thesis
      proof (cases post)
        case Nil
        then show ?thesis using Some res True by (simp add: n')
      next
        case (Cons y post')
        with len(1) Suc.prems n' have "length post' < n" "length post' < k" by auto
        then have "rx_match_all_fuel n r post' = rx_match_all_fuel k r post'" by (rule Suc.IH)
        then show ?thesis using Some res True Cons by (simp add: n')
      qed
    next
      case False
      with len(2) Suc.prems n' have "length post < n" "length post < k" by auto
      then have "rx_match_all_fuel n r post = rx_match_all_fuel k r post" by (rule Suc.IH)
      then show ?thesis using Some res False by (simp add: n')
    qed
  qed
qed

section \<open>The classifier\<close>

subsection \<open>Hash detection\<close>

lemma rx_match_rep_Cls:
  "length h = n \<Longrightarrow> list_all p h \<Longrightarrow> rx_match (rep n (Cls p)) (h @ post, cs) = [(post, cs)]"
  by (induction h arbitrary: n) auto

lemma rx_match_txHashPattern:
  "length h = 64 \<Longrightarrow> list_all isHexDigit h \<Longrightarrow>
   rx_match txHashPattern (''0x'' @ h @ post, cs) = [(post, cs)]"
  by (simp add: txHashPattern_def rx_match_rep_Cls)

lemma rx_exec_found:
  "rx_match r (s, Map.empty) \<noteq> [] \<Longrightarrow> rx_exec r acc (pre @ s) \<noteq> None"
proof (induction pre arbitrary: acc)
  case Nil
  then show ?case by (cases s) (auto split: list.splits)
next
  case (Cons x pre)
  then show ?case by (auto split: list.splits)
qed

lemma rx_test_txHashPattern:
  assumes "64 \<le> length h" "list_all isHexDigit h"
  shows "rx_test txHashPattern (pre @ ''0x'' @ h @ post)"
proof -
  have "length (take 64 h) = 64" and "list_all isHexDigit (take 64 h)"
    using assms by (auto simp: list_all_iff dest: in_set_takeD)
  then have "rx_match txHashPattern (''0x'' @ take 64 h @ (drop 64 h @ post), Map.empty) \<noteq> []"
    by (simp only: rx_match_txHashPattern) simp
  then have "rx_exec txHashPattern [] (pre @ (''0x'' @ take 64 h @ (drop 64 h @ post))) \<noteq> None"
    by (rule rx_exec_found)
  moreover have "take 64 h @ (drop 64 h @ post) = h @ post" by simp
  ultimately show ?thesis by (simp add: rx_test_def)
qed

lemma sampleHash_hex: "length sampleHash = 64" "list_all isHexDigit sampleHash"
  by (simp_all add: sampleHash_def isHexDigit_def code_def)

text \<open>
  Claim C2. Whatever stands before and after it, and so whatever keywords the text has,
  an issue that contains \<^verbatim>\<open>0x\<close> followed by 64 hexadecimal digits is classified as a
  transaction with three estimated searches.
\<close>

theorem classifyIssue_hash_is_transaction:
  assumes "length h = 64" and "list_all isHexDigit h"
  shows "type (classifyIssue (pre @ ''0x'' @ h @ post) ctx) = Transaction
         \<and> estimatedSearches (classifyIssue (pre @ ''0x'' @ h @ post) ctx) = Some (Fin 3)"
proof -
  have "rx_test txHashPattern (pre @ ''0x'' @ h @ post)"
    using assms by (intro rx_test_txHashPattern) simp_all
  then show ?thesis by (simp add: classifyIssue_def Let_def lit_3)
qed

theorem classifyIssue_hash_is_transaction_witness:
  "length sampleHash = 64 \<and> list_all isHexDigit sampleHash
   \<and> type (classifyIssue (''gas in parallel state of contract '' @ ''0x'' @ sampleHash
                            @ '' failed'') None) = Transaction
   \<and> estimatedSearches (classifyIssue (''gas in parallel state of contract '' @ ''0x''
                            @ sampleHash @ '' failed'') None) = Some (Fin 3)"
  using classifyIssue_hash_is_transaction [OF sampleHash_hex] sampleHash_hex by blast

text \<open>
  Claim C10. The hash pattern is not anchored and does not look at what follows the 64th
  digit: \<^verbatim>\<open>0x\<close> followed by 64 or more hexadecimal digits is detected, so a run of 65
  digits (the witness) is classified as a transaction with three estimated searches.
\<close>

theorem classifyIssue_accepts_longer_runs:
  assumes "64 \<le> length h" and "list_all isHexDigit h"
  shows "type (classifyIssue (pre @ ''0x'' @ h @ post) ctx) = Transaction
         \<and> estimatedSearches (classifyIssue (pre @ ''0x'' @ h @ post) ctx) = Some (Fin 3)"
proof -
  have "rx_test txHashPattern (pre @ ''0x'' @ h @ post)"
    using assms by (rule rx_test_txHashPattern)
  then show ?thesis by (simp add: classifyIssue_def Let_def lit_3)
qed

theorem classifyIssue_accepts_longer_runs_witness:
  "length (sampleHash @ ''7'') = 65 \<and> list_all isHexDigit (sampleHash @ ''7'')
   \<and> type (classifyIssue ([] @ ''0x'' @ (sampleHash @ ''7'') @ []) None) = Transaction
   \<and> estimatedSearches (classifyIssue ([] @ ''0x'' @ (sampleHash @ ''7'') @ []) None)
       = Some (Fin 3)"
proof -
  have a: "64 \<le> length (sampleHash @ ''7'')" and b: "list_all isHexDigit (sampleHash @ ''7'')"
    and c: "length (sampleHash @ ''7'') = 65"
    using sampleHash_hex by (simp_all add: isHexDigit_def code_def)
  from classifyIssue_accepts_longer_runs [OF a b, of "[]" "[]" None] b c show ?thesis by blast
qed

subsection \<open>Transactions and the tier\<close>

text \<open>
  Claim C9. A task that the classifier makes of kind transaction requires code execution,
  and \<^verbatim>\<open>selectModel\<close> gives it the High tier (Opus 4), never the Standard tier.
\<close>

theorem classifyIssue_transaction_needs_code:
  "type (classifyIssue issue ctx) = Transaction \<longrightarrow>
     requiresCodeExecution (classifyIssue issue ctx)
     \<and> selectModel (classifyIssue issue ctx) = OPUS_4
     \<and> selectModel (classifyIssue issue ctx) \<noteq> SONNET_4"
  using model_ids_differ by (simp add: classifyIssue_def Let_def selectModel_def)

theorem classifyIssue_transaction_needs_code_witness:
  "type (classifyIssue (''0x'' @ sampleHash) None) = Transaction
   \<and> requiresCodeExecution (classifyIssue (''0x'' @ sampleHash) None)
   \<and> selectModel (classifyIssue (''0x'' @ sampleHash) None) = OPUS_4
   \<and> selectModel (classifyIssue (''0x'' @ sampleHash) None) \<noteq> SONNET_4"
proof -
  have "rx_test txHashPattern ([] @ ''0x'' @ sampleHash @ [])"
    using sampleHash_hex by (intro rx_test_txHashPattern) simp_all
  then have "type (classifyIssue (''0x'' @ sampleHash) None) = Transaction"
    by (simp add: classifyIssue_def Let_def)
  with classifyIssue_transaction_needs_code [of "''0x'' @ sampleHash" None]
  show ?thesis by blast
qed

subsection \<open>The scenario of a failed transaction without a hash\<close>

lemma classifyIssue_revertIssue:
  "classifyIssue revertIssue None =
     \<lparr>type = General, complexity = High, data = revertIssue, userContext = None,
      requiresDeepAnalysis = True, requiresCodeExecution = False, isSimpleQuery = False,
      isStatusCheck = False, estimatedSearches = Some (Fin 2),
      estimatedTokens = Some (Fin 3000)\<rparr>"
  by (simp add: classifyIssue_def Let_def revertIssue_def rx_test_def txHashPattern_def
      startsWith_def toLowerCase_def lower_unit_def code_def lit_2 lit_3000)

lemma revert_searchCost:
  "searchCost (estimateCost (classifyIssue revertIssue None)) = Fin (5764607523034235 / 2 ^ 58)"
  unfolding classifyIssue_revertIssue
  by (simp add: estimateCost_def Let_def or_default_def truthy_def lit_search_rate)
     (subst round64_normal [where e = "- 6" and n = 5764607523034235], simp_all add: pow2_def)

lemma revert_tokenCost:
  "tokenCost (estimateCost (classifyIssue revertIssue None)) = Fin (8106479329266892 / 2 ^ 55)"
  unfolding classifyIssue_revertIssue
  by (simp add: estimateCost_def Let_def or_default_def truthy_def calculateTokenCost_def
        selectModel_def lit_1000 lit_opus_rate [simplified] round64_3)
     (subst round64_normal [where e = "- 3" and n = 8106479329266892], simp_all add: pow2_def)

lemma revert_total:
  "total (estimateCost (classifyIssue revertIssue None)) = Fin (8827055269646171 / 2 ^ 55)"
proof -
  have "total (estimateCost (classifyIssue revertIssue None))
        = fadd (searchCost (estimateCost (classifyIssue revertIssue None)))
               (tokenCost (estimateCost (classifyIssue revertIssue None)))"
    by (simp add: estimateCost_def Let_def)
  also have "\<dots> = Fin (8827055269646171 / 2 ^ 55)"
    unfolding revert_searchCost revert_tokenCost
    by (simp, subst round64_normal [where e = "- 3" and n = 8827055269646171])
       (simp_all add: pow2_def)
  finally show ?thesis .
qed

lemma lit_0224: "lit (22499999999999998 / 10 ^ 17) = Fin (8106479329266892 / 2 ^ 55)"
  unfolding lit_def
  by (subst round64_normal [where e = "- 3" and n = 8106479329266892]) (simp_all add: pow2_def)

lemma lit_0244: "lit (24499999999999997 / 10 ^ 17) = Fin (8827055269646171 / 2 ^ 55)"
  unfolding lit_def
  by (subst round64_normal [where e = "- 3" and n = 8827055269646171]) (simp_all add: pow2_def)

lemma lit_0225: "lit (225 / 1000) = Fin (8106479329266893 / 2 ^ 55)"
  unfolding lit_def
  by (subst round64_normal [where e = "- 3" and n = 8106479329266893]) (simp_all add: pow2_def)

lemma lit_0245: "lit (245 / 1000) = Fin (8827055269646172 / 2 ^ 55)"
  unfolding lit_def
  by (subst round64_normal [where e = "- 3" and n = 8827055269646172]) (simp_all add: pow2_def)

lemma lit_002: "lit (2 / 100) = Fin (5764607523034235 / 2 ^ 58)"
  unfolding lit_def
  by (subst round64_normal [where e = "- 6" and n = 5764607523034235]) (simp_all add: pow2_def)

text \<open>
  Claim C5, as stated, fails in its last two figures. For the issue
  \<^verbatim>\<open>"transaction failed with revert"\<close> the token cost is the product \<^verbatim>\<open>3 * 0.075\<close> as
  the program's multiplication rounds it, which is not the number \<^verbatim>\<open>0.225\<close>, and the
  total is not the number \<^verbatim>\<open>0.245\<close>; neither compares equal under \<^verbatim>\<open>===\<close>.
\<close>

theorem revert_scenario_counterexample:
  "tokenCost (estimateCost (classifyIssue revertIssue None)) \<noteq> lit (225 / 1000)
   \<and> \<not> strict_eq (tokenCost (estimateCost (classifyIssue revertIssue None))) (lit (225 / 1000))
   \<and> total (estimateCost (classifyIssue revertIssue None)) \<noteq> lit (245 / 1000)
   \<and> \<not> strict_eq (total (estimateCost (classifyIssue revertIssue None))) (lit (245 / 1000))"
  unfolding revert_tokenCost revert_total lit_0225 lit_0245 by (simp add: strict_eq_def)

text \<open>
  Claim C5, amended. Classifying \<^verbatim>\<open>"transaction failed with revert"\<close> yields kind general,
  high complexity, deep analysis required, no code execution, two estimated searches
  and 3000 estimated tokens; the selected tier is High; the search cost is the number
  \<^verbatim>\<open>0.02\<close>; the token cost is the number \<^verbatim>\<open>0.22499999999999998\<close>, the double next
  below \<^verbatim>\<open>0.225\<close> (their significands are neighbours), and the total is the number
  \<^verbatim>\<open>0.24499999999999997\<close>, the double next below \<^verbatim>\<open>0.245\<close>.
\<close>

theorem revert_scenario:
  "type (classifyIssue revertIssue None) = General
   \<and> complexity (classifyIssue revertIssue None) = High
   \<and> requiresDeepAnalysis (classifyIssue revertIssue None)
   \<and> \<not> requiresCodeExecution (classifyIssue revertIssue None)
   \<and> estimatedSearches (classifyIssue revertIssue None) = Some (Fin 2)
   \<and> estimatedTokens (classifyIssue revertIssue None) = Some (Fin 3000)
   \<and> selectModel (classifyIssue revertIssue None) = OPUS_4
   \<and> searchCost (estimateCost (classifyIssue revertIssue None)) = lit (2 / 100)
   \<and> tokenCost (estimateCost (classifyIssue revertIssue None))
       = lit (22499999999999998 / 10 ^ 17)
   \<and> total (estimateCost (classifyIssue revertIssue None))
       = lit (24499999999999997 / 10 ^ 17)
   \<and> tokenCost (estimateCost (classifyIssue revertIssue None)) = Fin (8106479329266892 / 2 ^ 55)
   \<and> lit (225 / 1000) = Fin (8106479329266893 / 2 ^ 55)
   \<and> total (estimateCost (classifyIssue revertIssue None)) = Fin (8827055269646171 / 2 ^ 55)
   \<and> lit (245 / 1000) = Fin (8827055269646172 / 2 ^ 55)"
  unfolding revert_searchCost revert_tokenCost revert_total lit_002 lit_0225 lit_0245
    lit_0224 lit_0244
  by (simp add: classifyIssue_revertIssue selectModel_def)

section \<open>Report assembly\<close>

subsection \<open>The root cause\<close>

lemma rx_match_charsI:
  "rx_match (charsI w) (s, cs) =
     (if length w \<le> length s \<and> map canonicalize (take (length w) s) = map canonicalize w
      then [(drop (length w) s, cs)] else [])"
  by (induction w arbitrary: s) (auto split: list.splits)

lemma rx_match_Seq_charsI:
  assumes "rx_match (Seq (charsI w) r) (s, cs) \<noteq> []"
  shows "length w \<le> length s" and "map canonicalize (take (length w) s) = map canonicalize w"
  using assms by (auto simp: rx_match_charsI split: if_splits)

lemma rx_exec_skip:
  "(\<And>k. k < length pre \<Longrightarrow> rx_match r (drop k pre @ s, Map.empty) = []) \<Longrightarrow>
   rx_exec r acc (pre @ s) = rx_exec r (acc @ pre) s"
proof (induction pre arbitrary: acc)
  case Nil
  then show ?case by simp
next
  case (Cons x pre)
  have here: "rx_match r ((x # pre) @ s, Map.empty) = []"
    using Cons.prems [of 0] by simp
  have "rx_match r (drop k pre @ s, Map.empty) = []" if "k < length pre" for k
    using Cons.prems [of "Suc k"] that by simp
  then have "rx_exec r (acc @ [x]) (pre @ s) = rx_exec r ((acc @ [x]) @ pre) s"
    by (rule Cons.IH)
  with here show ?case by simp
qed

lemma rx_exec_at:
  "rx_match r (x # xs, Map.empty) = st # others \<Longrightarrow>
   rx_exec r acc (x # xs) = Some (acc, take (length (x # xs) - length (fst st)) (x # xs), snd st, fst st)"
  by simp

lemma root_cause_no_R:
  "0 < j \<Longrightarrow> j < 10 \<Longrightarrow> canonicalize (''root cause'' ! j) \<noteq> CHR ''R''"
proof -
  assume "0 < j" "j < 10"
  then consider "j = 1" | "j = 2" | "j = 3" | "j = 4" | "j = 5" | "j = 6" | "j = 7" | "j = 8" | "j = 9"
    by linarith
  then show ?thesis
    by cases (simp_all add: canonicalize_def code_def Let_def char_of_def bit_0)
qed

lemma no_earlier_match:
  assumes no: "\<not> rx_test (charsI ''root cause'') pre"
    and k: "k < length pre"
  shows "rx_match rootCausePattern (drop k pre @ CHR ''R'' # rest, Map.empty) = []"
proof (rule ccontr)
  define p where "p = drop k pre"
  define w where "w = ''root cause''"
  assume "rx_match rootCausePattern (drop k pre @ CHR ''R'' # rest, Map.empty) \<noteq> []"
  then have m: "rx_match (Seq (charsI w) (Seq (plus_rx (Cls (\<lambda>c. c = CHR '':'' \<or> isSpace c)))
        (Grp 1 (Seq (plus_rx (Cls (\<lambda>c. c \<noteq> CHR ''.''))) (Chr CHR ''.''))))) (p @ CHR ''R'' # rest, Map.empty) \<noteq> []"
    by (simp add: rootCausePattern_def p_def w_def)
  have eq: "map canonicalize (take (length w) (p @ CHR ''R'' # rest)) = map canonicalize w"
    by (rule rx_match_Seq_charsI(2) [OF m])
  have lw: "length w = 10" by (simp add: w_def)
  have pne: "0 < length p" using k by (simp add: p_def)
  show False
  proof (cases "length p < 10")
    case True
    have "map canonicalize (take (length w) (p @ CHR ''R'' # rest)) ! length p
          = canonicalize CHR ''R''"
      using True by (simp add: lw nth_append)
    moreover have "map canonicalize w ! length p = canonicalize (w ! length p)"
      using True by (simp add: lw)
    ultimately have "canonicalize (w ! length p) = canonicalize CHR ''R''"
      using eq by simp
    moreover have "canonicalize CHR ''R'' = CHR ''R''"
      by (simp add: canonicalize_def code_def Let_def)
    ultimately show False using root_cause_no_R [OF pne True] by (simp add: w_def)
  next
    case False
    then have "take (length w) (p @ CHR ''R'' # rest) = take (length w) p" by (simp add: lw)
    with eq False have "rx_match (charsI w) (p, Map.empty) \<noteq> []"
      by (simp add: rx_match_charsI lw)
    then have "rx_exec (charsI w) [] (take k pre @ p) \<noteq> None" by (rule rx_exec_found)
    then show False using no by (simp add: rx_test_def p_def w_def)
  qed
qed

lemma root_cause_here:
  "\<exists>rest cs others. rx_match rootCausePattern (''Root cause: nonce collision. Try X.'' @ post, Map.empty) = (rest, cs) # others \<and> cs 1 = Some ''nonce collision.''"
  by (simp add: rootCausePattern_def plus_rx_def canonicalize_def code_def isSpace_def Let_def char_of_def bit_0)

lemma rx_exec_root_cause:
  assumes "\<not> rx_test (charsI ''root cause'') pre"
  shows "\<exists>m cs rest. rx_exec rootCausePattern [] (pre @ ''Root cause: nonce collision. Try X.'' @ post)
           = Some (pre, m, cs, rest) \<and> cs 1 = Some ''nonce collision.''"
proof -
  let ?X = "''Root cause: nonce collision. Try X.''"
  have "rx_exec rootCausePattern [] (pre @ (?X @ post)) = rx_exec rootCausePattern ([] @ pre) (?X @ post)"
  proof (rule rx_exec_skip)
    fix k assume "k < length pre"
    with assms show "rx_match rootCausePattern (drop k pre @ ?X @ post, Map.empty) = []"
      using no_earlier_match [of pre k] by simp
  qed
  moreover obtain rest cs others where
    "rx_match rootCausePattern (?X @ post, Map.empty) = (rest, cs) # others" "cs 1 = Some ''nonce collision.''"
    using root_cause_here by blast
  ultimately show ?thesis using rx_exec_at [of rootCausePattern "CHR ''R''" _ "(rest, cs)" others pre]
    by simp
qed

text \<open>
  Claim C6, as stated, fails: the text of \<open>earlierReport\<close> contains
  \<^verbatim>\<open>"Root cause: nonce collision. Try X."\<close> and the report carries one citation, but the
  pattern matches first at the earlier words \<^verbatim>\<open>"root cause is unclear."\<close>, and the root
  cause reported is \<^verbatim>\<open>"is unclear."\<close>.
\<close>

theorem root_cause_counterexample:
  "textContent (content earlierReport)
     = ''The root cause is unclear. '' @ ''Root cause: nonce collision. Try X.''
   \<and> sources (formatDebugReport earlierReport None None) = [sampleCitation]
   \<and> rootCause (formatDebugReport earlierReport None None) = Some ''is unclear.''
   \<and> rootCause (formatDebugReport earlierReport None None) \<noteq> Some ''nonce collision.''"
  by (simp add: formatDebugReport_def extractRootCause_def textContent_def earlierReport_def
      textBlock_def or_empty_def opt_field_def Let_def rootCausePattern_def plus_rx_def
      canonicalize_def code_def isSpace_def char_of_def bit_0)

text \<open>
  Claim C6, amended. When the text of the primary response contains
  \<^verbatim>\<open>"Root cause: nonce collision. Try X."\<close> and the words \<^verbatim>\<open>root cause\<close> do not occur, in
  any letter case, in the text before it, the root cause reported is exactly
  \<^verbatim>\<open>"nonce collision."\<close>; and when the responses carry one citation between them, the
  sources of the report are exactly that citation.
\<close>

theorem formatDebugReport_root_cause:
  assumes "textContent (content report) = pre @ ''Root cause: nonce collision. Try X.'' @ post"
    and "\<not> rx_test (charsI ''root cause'') pre"
    and "or_empty (citations report) @ opt_field citations searchResults
           @ opt_field citations analysis_msg = [c]"
  shows "rootCause (formatDebugReport report searchResults analysis_msg)
           = Some ''nonce collision.''
         \<and> sources (formatDebugReport report searchResults analysis_msg) = [c]"
proof -
  obtain m cs rest where
    "rx_exec rootCausePattern [] (pre @ ''Root cause: nonce collision. Try X.'' @ post)
       = Some (pre, m, cs, rest)" and "cs 1 = Some ''nonce collision.''"
    using rx_exec_root_cause [OF assms(2)] by blast
  then have "extractRootCause (content report) = Some ''nonce collision.''"
    by (simp add: extractRootCause_def assms(1))
  then show ?thesis using assms(3) by (simp add: formatDebugReport_def Let_def)
qed

theorem formatDebugReport_root_cause_witness:
  "textContent (content nonceReport)
     = ''Analysis done. '' @ ''Root cause: nonce collision. Try X.'' @ []
   \<and> \<not> rx_test (charsI ''root cause'') ''Analysis done. ''
   \<and> or_empty (citations nonceReport) @ opt_field citations None @ opt_field citations None
       = [sampleCitation]
   \<and> rootCause (formatDebugReport nonceReport None None) = Some ''nonce collision.''
   \<and> sources (formatDebugReport nonceReport None None) = [sampleCitation]"
proof -
  have a: "textContent (content nonceReport)
             = ''Analysis done. '' @ ''Root cause: nonce collision. Try X.'' @ []"
    by (simp add: textContent_def nonceReport_def textBlock_def)
  have b: "\<not> rx_test (charsI ''root cause'') ''Analysis done. ''"
    by (simp add: rx_test_def canonicalize_def code_def Let_def char_of_def bit_0)
  have c: "or_empty (citations nonceReport) @ opt_field citations None
             @ opt_field citations None = [sampleCitation]"
    by (simp add: or_empty_def opt_field_def nonceReport_def)
  from formatDebugReport_root_cause [OF a b c] a b c show ?thesis by blast
qed

subsection \<open>Tools and citations\<close>

lemma fold_insert_new:
  "distinct acc \<Longrightarrow>
   distinct (fold (\<lambda>x acc. if x \<in> set acc then acc else acc @ [x]) xs acc)
   \<and> set (fold (\<lambda>x acc. if x \<in> set acc then acc else acc @ [x]) xs acc) = set acc \<union> set xs"
  by (induction xs arbitrary: acc) auto

lemma from_Set_distinct: "distinct (from_Set xs)" and from_Set_set: "set (from_Set xs) = set xs"
  using fold_insert_new [of "[]" xs] by (simp_all add: from_Set_def)

lemma count_list_distinct: "distinct xs \<Longrightarrow> count_list xs x = (if x \<in> set xs then 1 else 0)"
  by (induction xs) auto

text \<open>
  Claim C7. The tools of the report are the deduplicated union of the tool lists of the
  primary response and of the two optional further responses: the same elements, none
  twice, so a tool that any of the responses reports (as \<^verbatim>\<open>"web_search"\<close>, reported by
  two) occurs exactly once. The citations, and the sources, are the citation lists of
  the responses one after the other in that order, with nothing removed.
\<close>

theorem formatDebugReport_tools_citations:
  "set (toolsUsed (formatDebugReport report searchResults analysis_msg))
     = set (or_empty (server_tool_use report)) \<union> set (opt_field server_tool_use searchResults)
       \<union> set (opt_field server_tool_use analysis_msg)
   \<and> distinct (toolsUsed (formatDebugReport report searchResults analysis_msg))
   \<and> (tool \<in> set (or_empty (server_tool_use report))
              \<union> set (opt_field server_tool_use searchResults)
              \<union> set (opt_field server_tool_use analysis_msg) \<longrightarrow>
        count_list (toolsUsed (formatDebugReport report searchResults analysis_msg)) tool = 1)
   \<and> report_citations (formatDebugReport report searchResults analysis_msg)
       = or_empty (citations report) @ opt_field citations searchResults
         @ opt_field citations analysis_msg
   \<and> sources (formatDebugReport report searchResults analysis_msg)
       = or_empty (citations report) @ opt_field citations searchResults
         @ opt_field citations analysis_msg"
  by (simp add: formatDebugReport_def Let_def from_Set_set from_Set_distinct
      count_list_distinct Un_assoc)

theorem formatDebugReport_tools_citations_witness:
  "''web_search'' \<in> set (or_empty (server_tool_use nonceReport))
   \<and> ''web_search'' \<in> set (opt_field server_tool_use (Some searchMessage))
   \<and> count_list (toolsUsed (formatDebugReport nonceReport (Some searchMessage) None))
         ''web_search'' = 1
   \<and> report_citations (formatDebugReport nonceReport (Some searchMessage) None)
       = [sampleCitation, sampleCitation]"
proof -
  have a: "''web_search'' \<in> set (or_empty (server_tool_use nonceReport))"
    and b: "''web_search'' \<in> set (opt_field server_tool_use (Some searchMessage))"
    by (simp_all add: or_empty_def opt_field_def nonceReport_def searchMessage_def)
  have c: "or_empty (citations nonceReport) @ opt_field citations (Some searchMessage)
             @ opt_field citations None = [sampleCitation, sampleCitation]"
    by (simp add: or_empty_def opt_field_def nonceReport_def searchMessage_def)
  from formatDebugReport_tools_citations
         [of nonceReport "Some searchMessage" None "''web_search''"] a b c
  show ?thesis by simp
qed

subsection \<open>No text\<close>

lemma textContent_no_text:
  "filter (\<lambda>c. block_type c = ''text'') blocks = [] \<Longrightarrow> textContent blocks = []"
  by (simp add: textContent_def)

lemma extractRootCause_empty: "textContent blocks = [] \<Longrightarrow> extractRootCause blocks = None"
  by (simp add: extractRootCause_def rootCausePattern_def)

lemma extractSuggestions_empty: "textContent blocks = [] \<Longrightarrow> extractSuggestions blocks = None"
  by (simp add: extractSuggestions_def rx_match_all_def suggestionPattern_def markerGroup_def
      plus_rx_def)

text \<open>
  Claim C8. Report assembly is a total function: it has no failing branch and returns a
  report for every primary response and every pair of optional further responses. When
  the primary response has no text segment (its content is empty, or holds only blocks
  of other kinds), the report has neither a root cause nor suggestions, and every other
  field is filled as usual.
\<close>

theorem formatDebugReport_no_text:
  assumes "filter (\<lambda>c. block_type c = ''text'') (content report) = []"
  shows "formatDebugReport report searchResults analysis_msg =
           \<lparr>analysis = content report,
            sources = or_empty (citations report) @ opt_field citations searchResults
                      @ opt_field citations analysis_msg,
            report_model = msg_model report,
            toolsUsed = from_Set (or_empty (server_tool_use report)
                                  @ opt_field server_tool_use searchResults
                                  @ opt_field server_tool_use analysis_msg),
            report_citations = or_empty (citations report) @ opt_field citations searchResults
                               @ opt_field citations analysis_msg,
            rootCause = None,
            suggestions = None\<rparr>"
  using assms
  by (simp add: formatDebugReport_def Let_def textContent_no_text extractRootCause_empty
      extractSuggestions_empty)

theorem formatDebugReport_no_text_witness:
  "filter (\<lambda>c. block_type c = ''text'') (content emptyReport) = []
   \<and> filter (\<lambda>c. block_type c = ''text'') (content searchMessage) = []
   \<and> rootCause (formatDebugReport emptyReport None None) = None
   \<and> suggestions (formatDebugReport emptyReport None None) = None
   \<and> rootCause (formatDebugReport searchMessage None None) = None
   \<and> suggestions (formatDebugReport searchMessage None None) = None"
proof -
  have a: "filter (\<lambda>c. block_type c = ''text'') (content emptyReport) = []"
    by (simp add: emptyReport_def)
  have b: "filter (\<lambda>c. block_type c = ''text'') (content searchMessage) = []"
    by (simp add: searchMessage_def toolBlock_def)
  from formatDebugReport_no_text [OF a, of None None]
       formatDebugReport_no_text [OF b, of None None] a b
  show ?thesis by simp
qed

end
